theory Spec2Isabelle
  imports Main
begin

section \<open>The assistant function: data model\<close>

text \<open>
  The program is \<^verbatim>\<open>src/api/src/functions/assistant.js\<close>: an async generator
  \<^verbatim>\<open>processQuery\<close> that opens a run on the assistant service and turns its event
  stream into text fragments, a generator \<^verbatim>\<open>handleRequiresAction\<close> that computes
  tool outputs, and a generator \<^verbatim>\<open>submitToolOutputs\<close> that resumes the run with
  them and forwards the resumed stream's text.

  A generator is modelled by what a consumer that drains it observes: the list of its
  effects in the order they happen (fragments yielded, lines logged, requests made to the
  service) and how it completes.
\<close>

subsection \<open>JavaScript values the code handles\<close>

datatype error = TypeError | SyntaxError | ServiceError string

text \<open>
  A finite Number that is not negative, given by the integers \<open>s\<close> and \<open>n\<close> of
  ECMA-262 \<^verbatim>\<open>Number::toString\<close>: its value is \<open>s * 10 ^ (n - k)\<close>,
  where \<open>k\<close> is the number of decimal digits of \<open>s\<close>. \<open>Number 0 n\<close> is zero.
  \<^verbatim>\<open>Math.random()\<close> is in \<open>[0, 1)\<close>, so the only Numbers \<^verbatim>\<open>getStockPrice\<close>
  computes are of this kind.
\<close>

datatype js_number = Number nat int

datatype json =
    JNull
  | JBool bool
  | JNumber js_number
  | JString string
  | JArray "json list"
  | JObject "(string \<times> json) list"

text \<open>
  Reading the property \<^verbatim>\<open>symbol\<close> of a parsed value: \<^verbatim>\<open>v.symbol\<close>. On
  \<^verbatim>\<open>null\<close> it throws a TypeError; on an object it is the property's value, or
  \<^verbatim>\<open>undefined\<close> (\<open>None\<close>) when the object has no such property; a boolean, a
  number, a string or an array has no property of that name.
\<close>

fun symbol_property :: "json \<Rightarrow> error + json option" where
  "symbol_property JNull = Inl TypeError"
| "symbol_property (JObject kvs) = Inr (map_of kvs ''symbol'')"
| "symbol_property v = Inr None"

subsection \<open>Number to string\<close>

definition digit_char :: "nat \<Rightarrow> char" where
  "digit_char d = ''0123456789'' ! d"

fun digits :: "nat \<Rightarrow> string" where
  "digits m = (if m < 10 then [digit_char m] else digits (m div 10) @ [digit_char (m mod 10)])"

declare digits.simps [simp del]

text \<open>
  \<^verbatim>\<open>"" + x\<close> for a Number \<open>x\<close>: ECMA-262 \<^verbatim>\<open>Number::toString\<close> with radix 10,
  steps 2 and 5 to 11 (the steps for NaN, negative and infinite values do not apply).
\<close>

definition Number_toString :: "js_number \<Rightarrow> string" where
  "Number_toString x =
     (case x of Number s n \<Rightarrow>
        if s = 0 then ''0''
        else
          let ds = digits s; k = int (length ds) in
          if - 5 \<le> n \<and> n \<le> 21 then
            if k \<le> n then ds @ replicate (nat (n - k)) CHR ''0''
            else if 0 < n then take (nat n) ds @ ''.'' @ drop (nat n) ds
            else ''0.'' @ replicate (nat (- n)) CHR ''0'' @ ds
          else
            let exponentSign = (if n < 0 then ''-'' else ''+'');
                e = digits (nat \<bar>n - 1\<bar>)
            in if k = 1 then ds @ ''e'' @ exponentSign @ e
               else take 1 ds @ ''.'' @ drop 1 ds @ ''e'' @ exponentSign @ e)"

text \<open>
  A numeric string: decimal digits, optionally a point and more digits, optionally an
  exponent part \<^verbatim>\<open>e\<close> with an optional sign and digits.
\<close>

definition is_digit :: "char \<Rightarrow> bool" where
  "is_digit c = (c \<in> set ''0123456789'')"

definition decimal_digits :: "string \<Rightarrow> bool" where
  "decimal_digits str = (str \<noteq> [] \<and> list_all is_digit str)"

definition exponent_part :: "string \<Rightarrow> bool" where
  "exponent_part str =
     (case str of
        [] \<Rightarrow> True
      | c # rest \<Rightarrow>
          c = CHR ''e'' \<and>
          (case rest of
             [] \<Rightarrow> False
           | d # ds \<Rightarrow> if d = CHR ''+'' \<or> d = CHR ''-'' then decimal_digits ds
                       else decimal_digits rest))"

definition fraction_part :: "string \<Rightarrow> bool" where
  "fraction_part str =
     (case str of [] \<Rightarrow> True | c # rest \<Rightarrow> c = CHR ''.'' \<and> decimal_digits rest)"

definition numeric_string :: "string \<Rightarrow> bool" where
  "numeric_string str =
     (let mantissa = takeWhile (\<lambda>c. c \<noteq> CHR ''e'') str;
          exponent = dropWhile (\<lambda>c. c \<noteq> CHR ''e'') str
      in decimal_digits (takeWhile (\<lambda>c. c \<noteq> CHR ''.'') mantissa) \<and>
         fraction_part (dropWhile (\<lambda>c. c \<noteq> CHR ''.'') mantissa) \<and>
         exponent_part exponent)"

subsection \<open>Events of a run\<close>

text \<open>
  Modelled from the spec: the shapes of the events, which the client library declares
  and the source only reads. Section 6 of the specification: each event carries a kind
  tag and a payload; the payload of an incremental text delta has nested content blocks
  with optional text values, the payload of a requires-action event has a call list.
  Section 3: a tool call request is a call identifier, a tool name and an argument string.

  A chunk of an event stream is \<^verbatim>\<open>{ event, data }\<close>. Of \<^verbatim>\<open>data\<close> the code reads
  \<^verbatim>\<open>data.id\<close>, \<^verbatim>\<open>data.thread_id\<close>, \<^verbatim>\<open>data.delta\<close> and
  \<^verbatim>\<open>data.required_action\<close>; the payload of one kind of event lacks the properties
  of the other, and \<open>None\<close> is a property that is absent (\<^verbatim>\<open>undefined\<close>). Inside a
  delta the code reads \<^verbatim>\<open>delta.content[0]?.text?.value\<close>: the content blocks are a
  list, which may be empty, a block may lack its text and a text may lack its value. A
  tool call is \<^verbatim>\<open>{ id, type, function: { name, arguments } }\<close>.
\<close>

record text_delta =
  text_value :: "string option"

record content_block =
  block_text :: "text_delta option"

record message_delta =
  content :: "content_block list"

record tool_function =
  fn_name :: string
  fn_arguments :: string

record tool_call =
  call_id :: string
  call_type :: string
  call_function :: tool_function

record submit_tool_outputs_action =
  tool_calls :: "tool_call list"

record required_action_obj =
  submit_tool_outputs :: submit_tool_outputs_action

record event_data =
  data_id :: "string option"
  data_thread_id :: "string option"
  delta :: "message_delta option"
  required_action :: "required_action_obj option"

record chunk =
  event :: string
  data :: event_data

text \<open>
  An event stream as \<^verbatim>\<open>for await\<close> reads it: it ends, or it throws, or it
  delivers a chunk and goes on. A stream that has been read to its end has delivered
  finitely many chunks; the streams here are those.
\<close>

datatype event_stream = End | Throw error | Next chunk event_stream

subsection \<open>The assistant client\<close>

record function_definition =
  function_name :: string
  function_description :: string
  function_parameters :: json

record tool_definition =
  tool_type :: string
  function_of_tool :: function_definition

record assistant_definition =
  definition_name :: string
  definition_instructions :: string
  definition_tools :: "tool_definition list"
  definition_model :: "string option"

record assistant =
  assistant_id :: string

record thread =
  thread_id :: string

record message_params =
  role :: string
  message_content :: string

record run_params =
  run_assistant_id :: string
  stream :: bool

text \<open>
  An element of the array \<^verbatim>\<open>toolOutputs\<close>: the object
  \<^verbatim>\<open>{ tool_call_id, output }\<close> the code builds, or the tool call itself.
\<close>

record tool_output_obj =
  tool_call_id :: string
  output_string :: string

datatype tool_output = Output tool_output_obj | Unchanged tool_call

text \<open>
  The requests the code makes, and the client as the answers it gives: an awaited request
  is rejected with an error or fulfilled with a value, a stream request gives an event
  stream (which may throw at once).
\<close>

datatype api_call =
    Assistants_retrieve string
  | Assistants_create assistant_definition
  | Threads_create
  | Messages_create string message_params
  | Runs_stream string run_params
  | Runs_submitToolOutputsStream "string option" "string option" "tool_output list"

record client =
  assistants_retrieve :: "string \<Rightarrow> error + assistant"
  assistants_create :: "assistant_definition \<Rightarrow> error + assistant"
  threads_create :: "error + thread"
  messages_create :: "string \<Rightarrow> message_params \<Rightarrow> error + unit"
  runs_stream :: "string \<Rightarrow> run_params \<Rightarrow> event_stream"
  runs_submitToolOutputsStream ::
    "string option \<Rightarrow> string option \<Rightarrow> tool_output list \<Rightarrow> event_stream"

subsection \<open>The process environment and the language runtime\<close>

text \<open>
  What the code reads from outside itself: the two environment variables, the client
  that \<^verbatim>\<open>new AzureOpenAI\<close> constructs (or the error it throws), the parser
  \<^verbatim>\<open>JSON.parse\<close> (it throws a SyntaxError or returns a value), the random source
  (\<open>Math_random env i\<close> is the value of the \<open>i\<close>-th call of \<^verbatim>\<open>Math.random\<close>)
  and the double-precision product \<open>Number_multiply\<close>. The theorems below hold for
  every such environment.
\<close>

record env =
  ASSISTANT_ID :: "string option"
  AZURE_DEPLOYMENT_NAME :: "string option"
  new_AzureOpenAI :: "error + client"
  JSON_parse :: "string \<Rightarrow> error + json"
  Math_random :: "nat \<Rightarrow> js_number"
  Number_multiply :: "js_number \<Rightarrow> js_number \<Rightarrow> js_number"

subsection \<open>Effects\<close>

text \<open>
  What a run does, in order: a fragment yielded, a line logged with
  \<^verbatim>\<open>context.log\<close> (alone, with \<^verbatim>\<open>{ value }\<close> or with \<^verbatim>\<open>{ run }\<close>), an
  error logged with \<^verbatim>\<open>context.error\<close>, a request to the service. A generator
  returns or raises its error to the consumer.
\<close>

datatype effect =
    Yield string
  | Log string
  | LogValue string string
  | LogRun string
  | LogError string error
  | Call api_call

datatype completion = Returned | Raised error

section \<open>The functions\<close>

subsection \<open>\<^verbatim>\<open>getStockPrice\<close> (lines 153 to 155)\<close>

text \<open>
  \<^verbatim>\<open>return Promise.resolve("" + Math.random(10) * 1000)\<close>: the argument of
  \<^verbatim>\<open>Math.random\<close> is ignored by it, and so is \<open>symbol\<close>. \<open>Number 1 4\<close> is
  1000. The second component counts the calls of \<^verbatim>\<open>Math.random\<close> made so far.
\<close>

definition getStockPrice :: "env \<Rightarrow> json option \<Rightarrow> nat \<Rightarrow> string \<times> nat" where
  "getStockPrice env symbol i =
     (Number_toString (Number_multiply env (Math_random env i) (Number 1 4)), Suc i)"

subsection \<open>\<^verbatim>\<open>initAzureOpenAI\<close> and \<^verbatim>\<open>assistantDefinition\<close> (lines 19 to 53)\<close>

definition initAzureOpenAI :: "env \<Rightarrow> effect list \<times> (error + client)" where
  "initAzureOpenAI env =
     ([Log ''Using Azure OpenAI (w/ Microsoft Entra ID) ...''], new_AzureOpenAI env)"

definition assistantDefinition :: "env \<Rightarrow> assistant_definition" where
  "assistantDefinition env =
     \<lparr>definition_name = ''Finance Assistant'',
      definition_instructions =
        ''You are a personal finance assistant. Retrieve the latest closing price of a stock using its ticker symbol.'',
      definition_tools =
        [\<lparr>tool_type = ''function'',
          function_of_tool =
            \<lparr>function_name = ''getStockPrice'',
             function_description =
               ''Retrieve the latest closing price of a stock using its ticker symbol.'',
             function_parameters =
               JObject
                 [(''type'', JString ''object''),
                  (''properties'',
                   JObject
                     [(''symbol'',
                       JObject
                         [(''type'', JString ''string''),
                          (''description'', JString ''The ticker symbol of the stock'')])]),
                  (''required'', JArray [JString ''symbol''])]\<rparr>\<rparr>],
      definition_model = AZURE_DEPLOYMENT_NAME env\<rparr>"

subsection \<open>The value of a delta (lines 87 and 141)\<close>

text \<open>
  \<^verbatim>\<open>delta.content[0]?.text?.value || ""\<close>: the empty string when there is no first
  block, no text in it, no value in the text, or a value that is falsy (the empty string).
\<close>

definition delta_value :: "message_delta \<Rightarrow> string" where
  "delta_value d =
     (case content d of
        [] \<Rightarrow> ''''
      | block # _ \<Rightarrow>
          (case block_text block of
             None \<Rightarrow> ''''
           | Some t \<Rightarrow>
               (case text_value t of
                  None \<Rightarrow> ''''
                | Some v \<Rightarrow> if v = '''' then '''' else v)))"

subsection \<open>\<^verbatim>\<open>submitToolOutputs\<close> (lines 126 to 151)\<close>

text \<open>The body of the loop over the resumed stream (lines 136 to 146).\<close>

definition resumedChunk :: "chunk \<Rightarrow> effect list" where
  "resumedChunk chunk =
     (if event chunk = ''thread.message.delta'' then
        (case delta (data chunk) of
           Some d \<Rightarrow>
             (let v = delta_value d
              in [Yield v, LogValue ''Processed thread.message.delta (tool output)'' v])
         | None \<Rightarrow> [])
      else [])"

text \<open>
  The loop over the resumed stream (line 135): its effects, and the error that ended it
  if the stream threw.
\<close>

fun resumedStream :: "event_stream \<Rightarrow> effect list \<times> error option" where
  "resumedStream End = ([], None)"
| "resumedStream (Throw e) = ([], Some e)"
| "resumedStream (Next chunk rest) =
     (let (es, r) = resumedStream rest in (resumedChunk chunk @ es, r))"

text \<open>
  The \<^verbatim>\<open>try\<close> block encloses the request and the loop; the \<^verbatim>\<open>catch\<close> logs
  the error, and the generator returns in either case.
\<close>

definition submitToolOutputs ::
  "client \<Rightarrow> tool_output list \<Rightarrow> string option \<Rightarrow> string option \<Rightarrow> effect list" where
  "submitToolOutputs openai toolOutputs runId threadId =
     (let asyncStream = runs_submitToolOutputsStream openai threadId runId toolOutputs;
          (es, r) = resumedStream asyncStream
      in [Log ''Call Tool output and stream the response'',
          Call (Runs_submitToolOutputsStream threadId runId toolOutputs)] @ es @
         (case r of
            None \<Rightarrow> []
          | Some e \<Rightarrow> [LogError ''Error submitting tool outputs:'' e]))"

subsection \<open>\<^verbatim>\<open>handleRequiresAction\<close> (lines 100 to 124)\<close>

text \<open>
  The callback given to \<^verbatim>\<open>map\<close> (lines 105 to 115): the promise it returns is
  rejected (\<open>Inl\<close>) when \<^verbatim>\<open>JSON.parse\<close> throws or when the parsed value is
  \<^verbatim>\<open>null\<close>, and fulfilled otherwise. It runs up to the call of
  \<^verbatim>\<open>getStockPrice\<close> before \<^verbatim>\<open>map\<close> goes on to the next tool call.
\<close>

definition toolCallback :: "env \<Rightarrow> tool_call \<Rightarrow> nat \<Rightarrow> (error + tool_output) \<times> nat" where
  "toolCallback env toolCall i =
     (if fn_name (call_function toolCall) = ''getStockPrice'' then
        (case JSON_parse env (fn_arguments (call_function toolCall)) of
           Inl e \<Rightarrow> (Inl e, i)
         | Inr parsed \<Rightarrow>
             (case symbol_property parsed of
                Inl e \<Rightarrow> (Inl e, i)
              | Inr symbol \<Rightarrow>
                  (let (price, j) = getStockPrice env symbol i
                   in (Inr (Output \<lparr>tool_call_id = call_id toolCall, output_string = price\<rparr>), j))))
      else (Inr (Unchanged toolCall), i))"

text \<open>\<^verbatim>\<open>tool_calls.map(callback)\<close>: every callback runs, in the order of the calls.\<close>

fun map_toolCalls ::
  "env \<Rightarrow> tool_call list \<Rightarrow> nat \<Rightarrow> (error + tool_output) list \<times> nat" where
  "map_toolCalls env [] i = ([], i)"
| "map_toolCalls env (toolCall # rest) i =
     (let (r, j) = toolCallback env toolCall i;
          (rs, k) = map_toolCalls env rest j
      in (r # rs, k))"

text \<open>
  \<^verbatim>\<open>await Promise.all(promises)\<close>: the values in the order of the promises, or the
  error of the first rejected one (the rejections here all happen while \<^verbatim>\<open>map\<close>
  runs, so the first in the array is the first in time).
\<close>

fun Promise_all :: "(error + 'a) list \<Rightarrow> error + 'a list" where
  "Promise_all [] = Inr []"
| "Promise_all (Inl e # rest) = Inl e"
| "Promise_all (Inr v # rest) =
     (case Promise_all rest of Inl e \<Rightarrow> Inl e | Inr vs \<Rightarrow> Inr (v # vs))"

text \<open>
  Reading \<^verbatim>\<open>run.required_action.submit_tool_outputs\<close> throws a TypeError when
  \<^verbatim>\<open>required_action\<close> is absent. Every error inside the \<^verbatim>\<open>try\<close> block is
  logged by the \<^verbatim>\<open>catch\<close>, and the generator returns.
\<close>

definition handleRequiresAction ::
  "env \<Rightarrow> client \<Rightarrow> event_data \<Rightarrow> string option \<Rightarrow> string option \<Rightarrow> nat \<Rightarrow>
   effect list \<times> nat" where
  "handleRequiresAction env openai run runId threadId i =
     (case required_action run of
        None \<Rightarrow>
          ([Log ''Handle Function Calling'',
            LogError ''Error processing required action:'' TypeError], i)
      | Some action \<Rightarrow>
          (let (promises, j) = map_toolCalls env (tool_calls (submit_tool_outputs action)) i
           in case Promise_all promises of
                Inl e \<Rightarrow>
                  ([Log ''Handle Function Calling'',
                    LogError ''Error processing required action:'' e], j)
              | Inr toolOutputs \<Rightarrow>
                  (Log ''Handle Function Calling'' #
                   submitToolOutputs openai toolOutputs runId threadId, j)))"

subsection \<open>\<^verbatim>\<open>processQuery\<close> (lines 55 to 98)\<close>

text \<open>The body of the loop over the run's stream (lines 81 to 94).\<close>

definition runChunk :: "env \<Rightarrow> client \<Rightarrow> chunk \<Rightarrow> nat \<Rightarrow> effect list \<times> nat" where
  "runChunk env openai chunk i =
     (if event chunk = ''thread.message.delta'' then
        (case delta (data chunk) of
           Some d \<Rightarrow>
             (let v = delta_value d
              in ([Yield v, LogValue ''Processed thread.message.delta'' v], i))
         | None \<Rightarrow> ([], i))
      else if event chunk = ''thread.run.requires_action'' then
        handleRequiresAction env openai (data chunk)
          (data_id (data chunk)) (data_thread_id (data chunk)) i
      else ([], i))"

text \<open>
  The loop over the run's stream (line 80). Nothing catches an error the stream throws:
  it is raised to the consumer.
\<close>

fun runStream ::
  "env \<Rightarrow> client \<Rightarrow> event_stream \<Rightarrow> nat \<Rightarrow> effect list \<times> completion \<times> nat" where
  "runStream env openai End i = ([], Returned, i)"
| "runStream env openai (Throw e) i = ([], Raised e, i)"
| "runStream env openai (Next chunk rest) i =
     (let (es, j) = runChunk env openai chunk i;
          (es', r, k) = runStream env openai rest j
      in (es @ es', r, k))"

text \<open>
  Step 1 (lines 60 to 62). \<^verbatim>\<open>ASSISTANT_ID\<close> is truthy when it is set and not the
  empty string.
\<close>

definition resolveAssistant :: "env \<Rightarrow> client \<Rightarrow> effect list \<times> (error + assistant)" where
  "resolveAssistant env openai =
     (let create = ([Call (Assistants_create (assistantDefinition env))],
                    assistants_create openai (assistantDefinition env))
      in case ASSISTANT_ID env of
           None \<Rightarrow> create
         | Some a \<Rightarrow>
             if a \<noteq> '''' then ([Call (Assistants_retrieve a)], assistants_retrieve openai a)
             else create)"

text \<open>
  Steps 0 to 4 (lines 56 to 79): the client, the assistant, the thread, the message and
  the run. An awaited request that is rejected raises its error to the consumer.
\<close>

definition openRun ::
  "env \<Rightarrow> string \<Rightarrow> effect list \<times> (error + client \<times> event_stream)" where
  "openRun env userQuery =
     (let (es0, r0) = initAzureOpenAI env;
          log0 = Log ''Step 0: Connect and acquire an OpenAI instance'' # es0
      in case r0 of
           Inl e \<Rightarrow> (log0, Inl e)
         | Inr openai \<Rightarrow>
             (let (es1, r1) = resolveAssistant env openai;
                  log1 = log0 @ Log ''Step 1: Retrieve or Create an Assistant'' # es1
              in case r1 of
                   Inl e \<Rightarrow> (log1, Inl e)
                 | Inr assistant \<Rightarrow>
                     (let log2 = log1 @ [Log ''Step 2: Create a Thread'', Call Threads_create]
                      in case threads_create openai of
                           Inl e \<Rightarrow> (log2, Inl e)
                         | Inr thread \<Rightarrow>
                             (let message = \<lparr>role = ''user'', message_content = userQuery\<rparr>;
                                  log3 = log2 @
                                    [Log ''Step 3: Add a Message to the Thread'',
                                     Call (Messages_create (thread_id thread) message)]
                              in case messages_create openai (thread_id thread) message of
                                   Inl e \<Rightarrow> (log3, Inl e)
                                 | Inr _ \<Rightarrow>
                                     (let params = \<lparr>run_assistant_id = assistant_id assistant,
                                                     stream = True\<rparr>;
                                          run = runs_stream openai (thread_id thread) params
                                      in (log3 @
                                          [Log ''Step 4: Create a Run (and stream the response)'',
                                           Call (Runs_stream (thread_id thread) params),
                                           LogRun ''Step 5: Read streamed response''],
                                          Inr (openai, run)))))))"

definition processQuery :: "env \<Rightarrow> string \<Rightarrow> nat \<Rightarrow> effect list \<times> completion \<times> nat" where
  "processQuery env userQuery i =
     (case openRun env userQuery of
        (es, Inl e) \<Rightarrow> (es, Raised e, i)
      | (es, Inr (openai, run)) \<Rightarrow>
          (case runStream env openai run i of
             (es', Returned, j) \<Rightarrow> (es @ es' @ [Log ''Done!''], Returned, j)
           | (es', Raised e, j) \<Rightarrow> (es @ es', Raised e, j)))"

subsection \<open>What a consumer observes\<close>

fun yielded :: "effect list \<Rightarrow> string list" where
  "yielded [] = []"
| "yielded (Yield v # es) = v # yielded es"
| "yielded (_ # es) = yielded es"

fun requests :: "effect list \<Rightarrow> api_call list" where
  "requests [] = []"
| "requests (Call c # es) = c # requests es"
| "requests (_ # es) = requests es"

fun errors_logged :: "effect list \<Rightarrow> error list" where
  "errors_logged [] = []"
| "errors_logged (LogError m e # es) = e # errors_logged es"
| "errors_logged (_ # es) = errors_logged es"

text \<open>The effects that follow the first logged error.\<close>

fun after_error :: "effect list \<Rightarrow> effect list" where
  "after_error [] = []"
| "after_error (LogError m e # es) = es"
| "after_error (_ # es) = after_error es"

fun chunks_of :: "event_stream \<Rightarrow> chunk list" where
  "chunks_of End = []"
| "chunks_of (Throw e) = []"
| "chunks_of (Next chunk rest) = chunk # chunks_of rest"

fun ending :: "event_stream \<Rightarrow> completion" where
  "ending End = Returned"
| "ending (Throw e) = Raised e"
| "ending (Next chunk rest) = ending rest"

fun deliver :: "chunk list \<Rightarrow> event_stream \<Rightarrow> event_stream" where
  "deliver [] s = s"
| "deliver (chunk # chunks) s = Next chunk (deliver chunks s)"

subsection \<open>Notions used in the statements\<close>

text \<open>
  The text a delta event carries: the value extracted from its delta, and nothing when
  the payload has no delta.
\<close>

definition extracted_text :: "chunk \<Rightarrow> string" where
  "extracted_text chunk = (case delta (data chunk) of None \<Rightarrow> '''' | Some d \<Rightarrow> delta_value d)"

text \<open>
  The text value of the first content block of a delta, in the words of the
  specification: absent when there is no first block, when the block has no text, or
  when the text has no value.
\<close>

definition first_block_text :: "message_delta \<Rightarrow> string option" where
  "first_block_text d =
     (if content d = [] then None
      else Option.bind (block_text (hd (content d))) text_value)"

text \<open>
  How a delegated dispatch fails, if it does: the payload has no required action, a
  callback's promise is rejected, or the resumed stream throws.
\<close>

definition dispatch_failure ::
  "env \<Rightarrow> client \<Rightarrow> event_data \<Rightarrow> string option \<Rightarrow> string option \<Rightarrow> nat \<Rightarrow> error option" where
  "dispatch_failure env openai run runId threadId i =
     (case required_action run of
        None \<Rightarrow> Some TypeError
      | Some action \<Rightarrow>
          (case Promise_all (fst (map_toolCalls env (tool_calls (submit_tool_outputs action)) i)) of
             Inl e \<Rightarrow> Some e
           | Inr toolOutputs \<Rightarrow>
               (case ending (runs_submitToolOutputsStream openai threadId runId toolOutputs) of
                  Returned \<Rightarrow> None
                | Raised e \<Rightarrow> Some e)))"

text \<open>
  The arguments of a tool call parse: \<^verbatim>\<open>JSON.parse\<close> returns a value, and reading
  its property \<^verbatim>\<open>symbol\<close> does not throw.
\<close>

definition arguments_parse :: "env \<Rightarrow> tool_call \<Rightarrow> bool" where
  "arguments_parse env toolCall =
     (case JSON_parse env (fn_arguments (call_function toolCall)) of
        Inl e \<Rightarrow> False
      | Inr parsed \<Rightarrow> (case symbol_property parsed of Inl e \<Rightarrow> False | Inr symbol \<Rightarrow> True))"

text \<open>
  An element of the submitted array answers a tool call: for a call of
  \<^verbatim>\<open>getStockPrice\<close> it is a Tool Output with the call's identifier and a numeric
  string, for any other call it is the call itself.
\<close>

definition answers :: "tool_call \<Rightarrow> tool_output \<Rightarrow> bool" where
  "answers toolCall out =
     (if fn_name (call_function toolCall) = ''getStockPrice'' then
        (case out of
           Output obj \<Rightarrow> tool_call_id obj = call_id toolCall \<and> numeric_string (output_string obj)
         | Unchanged c \<Rightarrow> False)
      else out = Unchanged toolCall)"

definition is_assistant_request :: "api_call \<Rightarrow> bool" where
  "is_assistant_request c =
     (case c of Assistants_retrieve _ \<Rightarrow> True | Assistants_create _ \<Rightarrow> True | _ \<Rightarrow> False)"

subsection \<open>Example inputs\<close>

text \<open>
  The examples instantiate the environment. \<open>example_parse\<close> gives the result of
  \<^verbatim>\<open>JSON.parse\<close> on the three argument strings the examples use (an object, the
  literal \<^verbatim>\<open>null\<close>, and the malformed text of a single opening brace, which like any
  other text here is a SyntaxError). \<open>example_multiply\<close> is the exact decimal product,
  which is the double-precision product whenever that is exact, as it is for 0.5 times
  1000 and 0.25 times 1000.
\<close>

definition example_parse :: "string \<Rightarrow> error + json" where
  \<open>example_parse s =
     (if s = ''{"symbol":"AAPL"}'' then Inr (JObject [(''symbol'', JString ''AAPL'')])
      else if s = ''null'' then Inr JNull
      else Inl SyntaxError)\<close>

definition example_multiply :: "js_number \<Rightarrow> js_number \<Rightarrow> js_number" where
  "example_multiply x y =
     (case x of Number s n \<Rightarrow> case y of Number t m \<Rightarrow>
        Number (s * t)
          (n - int (length (digits s)) + (m - int (length (digits t))) +
           int (length (digits (s * t)))))"

definition example_client :: "event_stream \<Rightarrow> event_stream \<Rightarrow> client" where
  "example_client run resumed =
     \<lparr>assistants_retrieve = (\<lambda>a. Inr \<lparr>assistant_id = a\<rparr>),
      assistants_create = (\<lambda>d. Inr \<lparr>assistant_id = ''asst_new''\<rparr>),
      threads_create = Inr \<lparr>thread_id = ''thread_1''\<rparr>,
      messages_create = (\<lambda>t m. Inr ()),
      runs_stream = (\<lambda>t p. run),
      runs_submitToolOutputsStream = (\<lambda>t r outs. resumed)\<rparr>"

definition example_env :: "string option \<Rightarrow> client \<Rightarrow> env" where
  "example_env a openai =
     \<lparr>ASSISTANT_ID = a,
      AZURE_DEPLOYMENT_NAME = Some ''gpt-4o'',
      new_AzureOpenAI = Inr openai,
      JSON_parse = example_parse,
      Math_random = (\<lambda>i. if i = 0 then Number 5 0 else Number 25 0),
      Number_multiply = example_multiply\<rparr>"

definition text_chunk :: "string \<Rightarrow> chunk" where
  "text_chunk v =
     \<lparr>event = ''thread.message.delta'',
      data = \<lparr>data_id = Some ''msg_1'', data_thread_id = None,
              delta = Some \<lparr>content = [\<lparr>block_text = Some \<lparr>text_value = Some v\<rparr>\<rparr>]\<rparr>,
              required_action = None\<rparr>\<rparr>"

definition empty_chunk :: "string \<Rightarrow> chunk" where
  "empty_chunk ev =
     \<lparr>event = ev,
      data = \<lparr>data_id = Some ''msg_1'', data_thread_id = None, delta = None,
              required_action = None\<rparr>\<rparr>"

definition blank_chunk :: chunk where
  "blank_chunk =
     \<lparr>event = ''thread.message.delta'',
      data = \<lparr>data_id = Some ''msg_1'', data_thread_id = None,
              delta = Some \<lparr>content = [\<lparr>block_text = None\<rparr>]\<rparr>,
              required_action = None\<rparr>\<rparr>"

definition action_chunk :: "tool_call list \<Rightarrow> chunk" where
  "action_chunk calls =
     \<lparr>event = ''thread.run.requires_action'',
      data = \<lparr>data_id = Some ''run_1'', data_thread_id = Some ''thread_1'', delta = None,
              required_action = Some \<lparr>submit_tool_outputs = \<lparr>tool_calls = calls\<rparr>\<rparr>\<rparr>\<rparr>"

definition stock_call :: "string \<Rightarrow> string \<Rightarrow> tool_call" where
  "stock_call c args =
     \<lparr>call_id = c, call_type = ''function'',
      call_function = \<lparr>fn_name = ''getStockPrice'', fn_arguments = args\<rparr>\<rparr>"

definition weather_call :: tool_call where
  "weather_call =
     \<lparr>call_id = ''call_w'', call_type = ''function'',
      call_function = \<lparr>fn_name = ''getWeather'', fn_arguments = ''{}''\<rparr>\<rparr>"

text \<open>
  A run that delivers text only; a run that asks for three tool calls between two
  texts, with the stream that resumes it (a second request for action on the resumed
  stream, and a failure at its end); a run whose only tool call has malformed arguments.
\<close>

definition text_run :: event_stream where
  "text_run =
     Next (text_chunk ''Hel'')
       (Next (empty_chunk ''thread.message.delta'') (Next (text_chunk ''lo'') End))"

definition text_env :: env where
  "text_env = example_env None (example_client text_run End)"

definition tool_calls_example :: "tool_call list" where
  \<open>tool_calls_example =
     [stock_call ''call_1'' ''{"symbol":"AAPL"}'', weather_call,
      stock_call ''call_3'' ''{"symbol":"AAPL"}'']\<close>

definition tool_run :: event_stream where
  "tool_run =
     Next (text_chunk ''a'') (Next (action_chunk tool_calls_example) (Next (text_chunk ''z'') End))"

definition resumed_run :: event_stream where
  "resumed_run =
     Next (text_chunk ''p'')
       (Next (action_chunk [weather_call])
         (Next (text_chunk ''q'') (Throw (ServiceError ''reset''))))"

definition tool_client :: client where
  "tool_client = example_client tool_run resumed_run"

definition tool_env :: env where
  "tool_env = example_env (Some ''asst_7'') tool_client"

definition malformed_run :: event_stream where
  "malformed_run =
     Next (action_chunk [stock_call ''call_1'' ''{'']) (Next (text_chunk ''x'') End)"

definition malformed_client :: client where
  "malformed_client = example_client malformed_run (Next (text_chunk ''p'') End)"

definition malformed_env :: env where
  "malformed_env = example_env (Some '''') malformed_client"

section \<open>Lemmas\<close>

subsection \<open>Observations and number strings\<close>

lemma yielded_append: "yielded (es @ es') = yielded es @ yielded es'"
  by (induction es rule: yielded.induct) simp_all

lemma requests_append: "requests (es @ es') = requests es @ requests es'"
  by (induction es rule: requests.induct) simp_all

lemma errors_logged_append: "errors_logged (es @ es') = errors_logged es @ errors_logged es'"
  by (induction es rule: errors_logged.induct) simp_all

lemma is_digit_digit_char: "d < 10 \<Longrightarrow> is_digit (digit_char d)"
proof -
  assume "d < 10"
  then have "d \<in> {0, 1, 2, 3, 4, 5, 6, 7, 8, 9}" by auto
  then show ?thesis by (auto simp: digit_char_def is_digit_def)
qed

lemma decimal_digits_digits: "decimal_digits (digits m)"
proof (induction m rule: digits.induct)
  case (1 m)
  show ?case
  proof (cases "m < 10")
    case True
    then show ?thesis
      by (simp add: digits.simps [of m] decimal_digits_def is_digit_digit_char)
  next
    case False
    with 1 have "decimal_digits (digits (m div 10))" by simp
    moreover have "is_digit (digit_char (m mod 10))" by (simp add: is_digit_digit_char)
    ultimately show ?thesis using False
      by (simp add: digits.simps [of m] decimal_digits_def)
  qed
qed

lemma is_digit_not_e: "is_digit c \<Longrightarrow> c \<noteq> CHR ''e''"
  by (auto simp: is_digit_def)

lemma is_digit_not_point: "is_digit c \<Longrightarrow> c \<noteq> CHR ''.''"
  by (auto simp: is_digit_def)

lemma digits_no_e: "decimal_digits a \<Longrightarrow> \<forall>c\<in>set a. c \<noteq> CHR ''e''"
  by (auto simp: decimal_digits_def list_all_iff dest: is_digit_not_e)

lemma digits_no_point: "decimal_digits a \<Longrightarrow> \<forall>c\<in>set a. c \<noteq> CHR ''.''"
  by (auto simp: decimal_digits_def list_all_iff dest: is_digit_not_point)

lemma numeric_string_parts:
  assumes a: "decimal_digits a"
    and f: "f = [] \<or> (\<exists>b. f = CHR ''.'' # b \<and> decimal_digits b)"
    and x: "x = [] \<or> (\<exists>sg c. x = CHR ''e'' # sg @ c \<and> decimal_digits c \<and> (sg = ''+'' \<or> sg = ''-''))"
  shows "numeric_string (a @ f @ x)"
proof -
  have fe: "\<forall>c\<in>set f. c \<noteq> CHR ''e''"
  proof (cases "f = []")
    case False
    with f obtain b where b: "f = CHR ''.'' # b" "decimal_digits b" by blast
    from digits_no_e [OF b(2)] show ?thesis by (simp add: b(1))
  qed simp
  have ae: "\<forall>c\<in>set (a @ f). c \<noteq> CHR ''e''"
    using fe digits_no_e [OF a] by simp blast
  have x_hd: "x = [] \<or> \<not> hd x \<noteq> CHR ''e''"
    using x by (elim disjE exE conjE) simp_all
  have tw: "takeWhile (\<lambda>c. c \<noteq> CHR ''e'') ((a @ f) @ x) = a @ f"
  proof (cases "x = []")
    case True
    then show ?thesis using ae by (simp add: takeWhile_eq_all_conv)
  next
    case False
    then have "takeWhile (\<lambda>c. c \<noteq> CHR ''e'') x = []"
      using x_hd by (simp add: takeWhile_eq_Nil_iff)
    moreover have "takeWhile (\<lambda>c. c \<noteq> CHR ''e'') ((a @ f) @ x) = (a @ f) @ takeWhile (\<lambda>c. c \<noteq> CHR ''e'') x"
      by (rule takeWhile_append2) (use ae in blast)
    ultimately show ?thesis by simp
  qed
  have dw: "dropWhile (\<lambda>c. c \<noteq> CHR ''e'') ((a @ f) @ x) = x"
  proof (cases "x = []")
    case True
    then show ?thesis using ae by simp
  next
    case False
    then have "dropWhile (\<lambda>c. c \<noteq> CHR ''e'') x = x"
      using x_hd by (cases x) simp_all
    moreover have "dropWhile (\<lambda>c. c \<noteq> CHR ''e'') ((a @ f) @ x) = dropWhile (\<lambda>c. c \<noteq> CHR ''e'') x"
      by (rule dropWhile_append2) (use ae in blast)
    ultimately show ?thesis by simp
  qed
  have f_hd: "f = [] \<or> \<not> hd f \<noteq> CHR ''.''"
    using f by (elim disjE exE conjE) simp_all
  have tw2: "takeWhile (\<lambda>c. c \<noteq> CHR ''.'') (a @ f) = a"
  proof -
    have "takeWhile (\<lambda>c. c \<noteq> CHR ''.'') f = []"
      using f_hd by (cases f) simp_all
    moreover have "takeWhile (\<lambda>c. c \<noteq> CHR ''.'') (a @ f) = a @ takeWhile (\<lambda>c. c \<noteq> CHR ''.'') f"
      by (rule takeWhile_append2) (use digits_no_point [OF a] in blast)
    ultimately show ?thesis by simp
  qed
  have dw2: "dropWhile (\<lambda>c. c \<noteq> CHR ''.'') (a @ f) = f"
  proof -
    have "dropWhile (\<lambda>c. c \<noteq> CHR ''.'') f = f"
      using f_hd by (cases f) simp_all
    moreover have "dropWhile (\<lambda>c. c \<noteq> CHR ''.'') (a @ f) = dropWhile (\<lambda>c. c \<noteq> CHR ''.'') f"
      by (rule dropWhile_append2) (use digits_no_point [OF a] in blast)
    ultimately show ?thesis by simp
  qed
  have fp: "fraction_part f"
    using f by (elim disjE exE conjE) (simp_all add: fraction_part_def)
  have ep: "exponent_part x"
    using x by (elim disjE exE conjE) (simp_all add: exponent_part_def decimal_digits_def)
  have "numeric_string ((a @ f) @ x)"
    unfolding numeric_string_def Let_def tw dw tw2 dw2 using a fp ep by simp
  then show ?thesis by simp
qed

lemma decimal_digits_zeros: "0 < m \<Longrightarrow> decimal_digits (replicate m CHR ''0'')"
  by (simp add: decimal_digits_def list_all_iff is_digit_def)

lemma decimal_digits_append: "decimal_digits a \<Longrightarrow> list_all is_digit b \<Longrightarrow> decimal_digits (a @ b)"
  by (simp add: decimal_digits_def)

lemma decimal_digits_append2: "list_all is_digit a \<Longrightarrow> decimal_digits b \<Longrightarrow> decimal_digits (a @ b)"
  by (simp add: decimal_digits_def)

lemma all_digits_zeros: "list_all is_digit (replicate m CHR ''0'')"
  by (simp add: list_all_iff is_digit_def)

lemma decimal_digits_take: "decimal_digits a \<Longrightarrow> 0 < m \<Longrightarrow> decimal_digits (take m a)"
  by (auto simp: decimal_digits_def list_all_iff dest: in_set_takeD)

lemma decimal_digits_drop: "decimal_digits a \<Longrightarrow> m < length a \<Longrightarrow> decimal_digits (drop m a)"
  by (auto simp: decimal_digits_def list_all_iff dest: in_set_dropD)

lemma all_digits_drop: "decimal_digits a \<Longrightarrow> list_all is_digit (drop m a)"
  by (auto simp: decimal_digits_def list_all_iff dest: in_set_dropD)

lemma Number_toString_numeric: "numeric_string (Number_toString x)"
proof (cases x)
  case (Number s n)
  define ds where "ds = digits s"
  define k where "k = int (length ds)"
  define ex where "ex = CHR ''e'' # (if n < 0 then ''-'' else ''+'') @ digits (nat \<bar>n - 1\<bar>)"
  have ds: "decimal_digits ds" by (simp add: ds_def decimal_digits_digits)
  have kpos: "0 < k" using ds by (simp add: k_def decimal_digits_def)
  have ex: "ex = [] \<or> (\<exists>sg c. ex = CHR ''e'' # sg @ c \<and> decimal_digits c \<and> (sg = ''+'' \<or> sg = ''-''))"
    unfolding ex_def
    by (intro disjI2 exI [of _ "if n < 0 then ''-'' else ''+''"] exI [of _ "digits (nat \<bar>n - 1\<bar>)"])
       (simp add: decimal_digits_digits)
  have unfold: "Number_toString x =
     (if s = 0 then ''0''
      else if - 5 \<le> n \<and> n \<le> 21 then
             if k \<le> n then ds @ replicate (nat (n - k)) CHR ''0''
             else if 0 < n then take (nat n) ds @ ''.'' @ drop (nat n) ds
             else ''0.'' @ replicate (nat (- n)) CHR ''0'' @ ds
           else if k = 1 then ds @ ex else take 1 ds @ ''.'' @ drop 1 ds @ ex)"
    by (simp add: Number Number_toString_def Let_def ds_def k_def ex_def)
  consider (zero) "s = 0"
    | (int) "s \<noteq> 0" "- 5 \<le> n \<and> n \<le> 21" "k \<le> n"
    | (frac) "s \<noteq> 0" "- 5 \<le> n \<and> n \<le> 21" "\<not> k \<le> n" "0 < n"
    | (small) "s \<noteq> 0" "- 5 \<le> n \<and> n \<le> 21" "\<not> k \<le> n" "\<not> 0 < n"
    | (exp1) "s \<noteq> 0" "\<not> (- 5 \<le> n \<and> n \<le> 21)" "k = 1"
    | (expk) "s \<noteq> 0" "\<not> (- 5 \<le> n \<and> n \<le> 21)" "k \<noteq> 1"
    by blast
  then show ?thesis
  proof cases
    case zero
    have "numeric_string (''0'' @ [] @ [])"
      by (rule numeric_string_parts) (simp_all add: decimal_digits_def is_digit_def)
    moreover have "Number_toString x = ''0''"
      unfolding unfold using zero by simp
    ultimately show ?thesis by simp
  next
    case int
    have "numeric_string ((ds @ replicate (nat (n - k)) CHR ''0'') @ [] @ [])"
      by (rule numeric_string_parts) (simp_all add: decimal_digits_append ds all_digits_zeros)
    moreover have "Number_toString x = ds @ replicate (nat (n - k)) CHR ''0''"
      unfolding unfold using int by simp
    ultimately show ?thesis by simp
  next
    case frac
    have "numeric_string (take (nat n) ds @ (CHR ''.'' # drop (nat n) ds) @ [])"
    proof (rule numeric_string_parts)
      show "decimal_digits (take (nat n) ds)" using frac ds by (simp add: decimal_digits_take)
      show "CHR ''.'' # drop (nat n) ds = [] \<or> (\<exists>b. CHR ''.'' # drop (nat n) ds = CHR ''.'' # b \<and> decimal_digits b)"
        using frac ds by (simp add: decimal_digits_drop k_def)
    qed simp
    moreover have "Number_toString x = take (nat n) ds @ ''.'' @ drop (nat n) ds"
      unfolding unfold using frac by simp
    ultimately show ?thesis by simp
  next
    case small
    have "numeric_string (''0'' @ (CHR ''.'' # replicate (nat (- n)) CHR ''0'' @ ds) @ [])"
    proof (rule numeric_string_parts)
      show "decimal_digits ''0''" by (simp add: decimal_digits_def is_digit_def)
      show "CHR ''.'' # replicate (nat (- n)) CHR ''0'' @ ds = [] \<or>
            (\<exists>b. CHR ''.'' # replicate (nat (- n)) CHR ''0'' @ ds = CHR ''.'' # b \<and> decimal_digits b)"
        using ds by (simp add: decimal_digits_append2 all_digits_zeros)
    qed simp
    moreover have "Number_toString x = ''0.'' @ replicate (nat (- n)) CHR ''0'' @ ds"
      unfolding unfold using small by simp
    ultimately show ?thesis by simp
  next
    case exp1
    have "numeric_string (ds @ [] @ ex)"
      by (rule numeric_string_parts [OF ds _ ex]) simp
    moreover have "Number_toString x = ds @ ex"
      unfolding unfold using exp1 by (simp only: if_P if_not_P if_True if_False simp_thms)
    ultimately show ?thesis by simp
  next
    case expk
    have "length ds \<noteq> 1" using expk(3) by (simp add: k_def)
    moreover have "length ds \<noteq> 0" using kpos by (simp add: k_def)
    ultimately have k1: "1 < length ds" by arith
    have "numeric_string (take 1 ds @ (CHR ''.'' # drop 1 ds) @ ex)"
    proof (rule numeric_string_parts)
      show "decimal_digits (take 1 ds)" by (rule decimal_digits_take [OF ds]) simp
      show "CHR ''.'' # drop 1 ds = [] \<or> (\<exists>b. CHR ''.'' # drop 1 ds = CHR ''.'' # b \<and> decimal_digits b)"
        using decimal_digits_drop [OF ds k1] by blast
      show "ex = [] \<or> (\<exists>sg c. ex = CHR ''e'' # sg @ c \<and> decimal_digits c \<and> (sg = ''+'' \<or> sg = ''-''))"
        by (rule ex)
    qed
    moreover have "Number_toString x = take 1 ds @ ''.'' @ drop 1 ds @ ex"
      unfolding unfold using expk by (simp only: if_P if_not_P if_True if_False simp_thms)
    ultimately show ?thesis by simp
  qed
qed


subsection \<open>The callbacks\<close>

lemma toolCallback_other:
  "fn_name (call_function toolCall) \<noteq> ''getStockPrice'' \<Longrightarrow>
   toolCallback env toolCall i = (Inr (Unchanged toolCall), i)"
  by (simp add: toolCallback_def)

lemma toolCallback_stock:
  assumes "fn_name (call_function toolCall) = ''getStockPrice''"
    and "arguments_parse env toolCall"
  shows "\<exists>out. fst (toolCallback env toolCall i) = Inr out \<and> answers toolCall out"
  using assms
  by (auto simp: toolCallback_def arguments_parse_def answers_def getStockPrice_def
      Number_toString_numeric split: sum.splits)

lemma toolCallback_stock_fails:
  assumes "fn_name (call_function toolCall) = ''getStockPrice''"
    and "\<not> arguments_parse env toolCall"
  shows "\<exists>e. toolCallback env toolCall i = (Inl e, i)"
  using assms
  by (auto simp: toolCallback_def arguments_parse_def split: sum.splits)

lemma toolCallback_answers:
  assumes "fn_name (call_function toolCall) = ''getStockPrice'' \<longrightarrow> arguments_parse env toolCall"
  shows "\<exists>out. fst (toolCallback env toolCall i) = Inr out \<and> answers toolCall out"
proof (cases "fn_name (call_function toolCall) = ''getStockPrice''")
  case True
  with assms show ?thesis by (simp add: toolCallback_stock)
next
  case False
  then show ?thesis by (simp add: toolCallback_other answers_def)
qed

lemma map_toolCalls_answers:
  assumes "\<forall>c\<in>set calls. fn_name (call_function c) = ''getStockPrice'' \<longrightarrow> arguments_parse env c"
  shows "\<exists>outs. Promise_all (fst (map_toolCalls env calls i)) = Inr outs \<and> list_all2 answers calls outs"
  using assms
proof (induction calls arbitrary: i)
  case Nil
  show ?case by simp
next
  case (Cons c calls)
  obtain r j where cb: "toolCallback env c i = (r, j)" by (cases "toolCallback env c i")
  from Cons.prems have "fn_name (call_function c) = ''getStockPrice'' \<longrightarrow> arguments_parse env c"
    by simp
  from toolCallback_answers [OF this, of i] cb
  obtain out where out: "r = Inr out" "answers c out" by auto
  from Cons.prems have "\<forall>c\<in>set calls. fn_name (call_function c) = ''getStockPrice'' \<longrightarrow> arguments_parse env c"
    by simp
  from Cons.IH [OF this, of j]
  obtain outs where outs: "Promise_all (fst (map_toolCalls env calls j)) = Inr outs"
    "list_all2 answers calls outs" by blast
  obtain rs k where m: "map_toolCalls env calls j = (rs, k)" by (cases "map_toolCalls env calls j")
  show ?case
    using out outs m by (simp add: cb)
qed

lemma map_toolCalls_length: "length (fst (map_toolCalls env calls i)) = length calls"
proof (induction calls arbitrary: i)
  case Nil
  show ?case by simp
next
  case (Cons c calls)
  obtain r j where cb: "toolCallback env c i = (r, j)" by (cases "toolCallback env c i")
  obtain rs k where m: "map_toolCalls env calls j = (rs, k)" by (cases "map_toolCalls env calls j")
  from Cons.IH [of j] m show ?case by (simp add: cb)
qed

lemma map_toolCalls_nth_other:
  "j < length calls \<Longrightarrow> fn_name (call_function (calls ! j)) \<noteq> ''getStockPrice'' \<Longrightarrow>
   fst (map_toolCalls env calls i) ! j = Inr (Unchanged (calls ! j))"
proof (induction calls arbitrary: i j)
  case Nil
  then show ?case by simp
next
  case (Cons c calls)
  obtain r l where cb: "toolCallback env c i = (r, l)" by (cases "toolCallback env c i")
  obtain rs k where m: "map_toolCalls env calls l = (rs, k)" by (cases "map_toolCalls env calls l")
  show ?case
  proof (cases j)
    case 0
    with Cons.prems cb show ?thesis by (simp add: m toolCallback_other)
  next
    case (Suc j')
    with Cons.prems have "fst (map_toolCalls env calls l) ! j' = Inr (Unchanged (calls ! j'))"
      by (intro Cons.IH) simp_all
    with Suc m show ?thesis by (simp add: cb)
  qed
qed

lemma Promise_all_nth:
  "Promise_all rs = Inr vs \<Longrightarrow> j < length rs \<Longrightarrow> rs ! j = Inr (vs ! j)"
proof (induction rs arbitrary: vs j rule: Promise_all.induct)
  case 1
  then show ?case by simp
next
  case (2 e rest)
  then show ?case by simp
next
  case (3 v rest)
  then show ?case by (cases j) (auto split: sum.splits)
qed

lemma Promise_all_rejected:
  "Inl e \<in> set rs \<Longrightarrow> \<exists>e'. Promise_all rs = Inl e'"
  by (induction rs rule: Promise_all.induct) (auto split: sum.splits)

subsection \<open>The resumed stream\<close>

lemma resumedStream_effects: "fst (resumedStream s) = concat (map resumedChunk (chunks_of s))"
  by (induction s) (simp_all add: case_prod_beta)

lemma resumedStream_ending:
  "snd (resumedStream s) = (case ending s of Returned \<Rightarrow> None | Raised e \<Rightarrow> Some e)"
  by (induction s) (simp_all add: case_prod_beta)

lemma requests_resumedChunk: "requests (resumedChunk chunk) = []"
  by (simp add: resumedChunk_def Let_def split: option.splits)

lemma errors_logged_resumedChunk: "errors_logged (resumedChunk chunk) = []"
  by (simp add: resumedChunk_def Let_def split: option.splits)

lemma requests_resumed_chunks: "requests (concat (map resumedChunk chunks)) = []"
  by (induction chunks) (simp_all add: requests_append requests_resumedChunk)

lemma errors_logged_resumed_chunks: "errors_logged (concat (map resumedChunk chunks)) = []"
  by (induction chunks) (simp_all add: errors_logged_append errors_logged_resumedChunk)

lemma submitToolOutputs_effects:
  "submitToolOutputs openai toolOutputs runId threadId =
     [Log ''Call Tool output and stream the response'',
      Call (Runs_submitToolOutputsStream threadId runId toolOutputs)] @
     concat (map resumedChunk
       (chunks_of (runs_submitToolOutputsStream openai threadId runId toolOutputs))) @
     (case ending (runs_submitToolOutputsStream openai threadId runId toolOutputs) of
        Returned \<Rightarrow> []
      | Raised e \<Rightarrow> [LogError ''Error submitting tool outputs:'' e])"
proof -
  obtain es r where r: "resumedStream (runs_submitToolOutputsStream openai threadId runId toolOutputs) = (es, r)"
    by (cases "resumedStream (runs_submitToolOutputsStream openai threadId runId toolOutputs)")
  from r resumedStream_effects [of "runs_submitToolOutputsStream openai threadId runId toolOutputs"]
  have es: "es = concat (map resumedChunk
       (chunks_of (runs_submitToolOutputsStream openai threadId runId toolOutputs)))" by simp
  from r resumedStream_ending [of "runs_submitToolOutputsStream openai threadId runId toolOutputs"]
  have r': "r = (case ending (runs_submitToolOutputsStream openai threadId runId toolOutputs) of
     Returned \<Rightarrow> None | Raised e \<Rightarrow> Some e)" by simp
  show ?thesis
    by (simp add: submitToolOutputs_def r Let_def es [symmetric] r' split: completion.splits)
qed

lemma requests_submitToolOutputs:
  "requests (submitToolOutputs openai toolOutputs runId threadId) =
     [Runs_submitToolOutputsStream threadId runId toolOutputs]"
  by (simp add: submitToolOutputs_effects requests_append requests_resumed_chunks
      split: completion.splits)

lemma handleRequiresAction_cases:
  "handleRequiresAction env openai run runId threadId i =
     (case required_action run of
        None \<Rightarrow>
          ([Log ''Handle Function Calling'',
            LogError ''Error processing required action:'' TypeError], i)
      | Some action \<Rightarrow>
          (case Promise_all (fst (map_toolCalls env (tool_calls (submit_tool_outputs action)) i)) of
             Inl e \<Rightarrow>
               ([Log ''Handle Function Calling'',
                 LogError ''Error processing required action:'' e],
                snd (map_toolCalls env (tool_calls (submit_tool_outputs action)) i))
           | Inr toolOutputs \<Rightarrow>
               (Log ''Handle Function Calling'' #
                submitToolOutputs openai toolOutputs runId threadId,
                snd (map_toolCalls env (tool_calls (submit_tool_outputs action)) i))))"
  by (simp add: handleRequiresAction_def Let_def split: option.splits prod.splits sum.splits)

lemma requests_handleRequiresAction:
  "requests (fst (handleRequiresAction env openai run runId threadId i)) =
     (case required_action run of
        None \<Rightarrow> []
      | Some action \<Rightarrow>
          (case Promise_all (fst (map_toolCalls env (tool_calls (submit_tool_outputs action)) i)) of
             Inl e \<Rightarrow> []
           | Inr toolOutputs \<Rightarrow> [Runs_submitToolOutputsStream threadId runId toolOutputs]))"
  by (simp add: handleRequiresAction_cases requests_submitToolOutputs
      split: option.splits sum.splits)

subsection \<open>The run's stream\<close>

lemma runStream_deliver:
  "runStream env openai (deliver chunks s) i =
     (case runStream env openai (deliver chunks End) i of
        (es, r, j) \<Rightarrow> (case runStream env openai s j of (es', r', k) \<Rightarrow> (es @ es', r', k)))"
proof (induction chunks arbitrary: i)
  case Nil
  show ?case by (simp split: prod.splits)
next
  case (Cons chunk chunks)
  obtain es j where c: "runChunk env openai chunk i = (es, j)" by (cases "runChunk env openai chunk i")
  show ?case
    by (simp add: c Cons.IH [of j] split: prod.splits)
qed

lemma runChunk_delta_yield:
  "event chunk = ''thread.message.delta'' \<Longrightarrow>
   concat (yielded (fst (runChunk env openai chunk i))) = extracted_text chunk \<and>
   snd (runChunk env openai chunk i) = i"
  by (simp add: runChunk_def extracted_text_def Let_def split: option.splits)

lemma runStream_text_only:
  "\<forall>chunk\<in>set (chunks_of s). event chunk = ''thread.message.delta'' \<Longrightarrow>
   concat (yielded (fst (runStream env openai s i))) = concat (map extracted_text (chunks_of s)) \<and>
   fst (snd (runStream env openai s i)) = ending s"
proof (induction s arbitrary: i)
  case End
  show ?case by simp
next
  case (Throw e)
  show ?case by simp
next
  case (Next chunk rest)
  then have ev: "event chunk = ''thread.message.delta''" by simp
  obtain es j where c: "runChunk env openai chunk i = (es, j)" by (cases "runChunk env openai chunk i")
  from runChunk_delta_yield [OF ev, of env openai i] c
  have es: "concat (yielded es) = extracted_text chunk" by simp
  obtain es' r k where r: "runStream env openai rest j = (es', r, k)"
    by (cases "runStream env openai rest j") auto
  from Next have "concat (yielded (fst (runStream env openai rest j))) =
      concat (map extracted_text (chunks_of rest)) \<and>
    fst (snd (runStream env openai rest j)) = ending rest" by simp
  then show ?case
    by (simp add: c r es yielded_append)
qed

lemma yielded_openRun: "yielded (fst (openRun env userQuery)) = []"
  by (auto simp: openRun_def initAzureOpenAI_def resolveAssistant_def Let_def yielded_append
      split: sum.splits option.splits if_splits prod.splits)

lemma processQuery_opened:
  assumes "snd (openRun env userQuery) = Inr (openai, run)"
  shows "processQuery env userQuery i =
     (case runStream env openai run i of
        (es, Returned, j) \<Rightarrow> (fst (openRun env userQuery) @ es @ [Log ''Done!''], Returned, j)
      | (es, Raised e, j) \<Rightarrow> (fst (openRun env userQuery) @ es, Raised e, j))"
  using assms
  by (cases "openRun env userQuery") (simp add: processQuery_def split: prod.splits completion.splits)

lemma processQuery_yielded:
  assumes "snd (openRun env userQuery) = Inr (openai, run)"
  shows "yielded (fst (processQuery env userQuery i)) = yielded (fst (runStream env openai run i))"
    and "fst (snd (processQuery env userQuery i)) = fst (snd (runStream env openai run i))"
  using yielded_openRun [of env userQuery]
  by (auto simp: processQuery_opened [OF assms] yielded_append split: prod.splits completion.splits)

subsection \<open>Evaluation of the examples\<close>

lemmas example_defs =
  example_env_def example_client_def example_parse_def example_multiply_def
  text_chunk_def empty_chunk_def action_chunk_def stock_call_def weather_call_def
  text_run_def text_env_def tool_calls_example_def tool_run_def resumed_run_def
  tool_client_def tool_env_def malformed_run_def malformed_client_def malformed_env_def

lemma replicate_numeral: "replicate (numeral v) x = x # replicate (numeral v - 1) x"
  by (simp add: numeral_eq_Suc)

lemmas run_defs = replicate_numeral
  openRun_def initAzureOpenAI_def resolveAssistant_def processQuery_def runChunk_def
  resumedChunk_def delta_value_def handleRequiresAction_def submitToolOutputs_def
  toolCallback_def getStockPrice_def Number_toString_def digits.simps digit_char_def Let_def

lemma map_toolCalls_rejected:
  assumes "c \<in> set calls" and "fn_name (call_function c) = ''getStockPrice''"
    and "\<not> arguments_parse env c"
  shows "\<exists>e. Inl e \<in> set (fst (map_toolCalls env calls i))"
  using assms(1)
proof (induction calls arbitrary: i)
  case Nil
  then show ?case by simp
next
  case (Cons a calls)
  obtain r j where cb: "toolCallback env a i = (r, j)" by (cases "toolCallback env a i")
  obtain rs k where m: "map_toolCalls env calls j = (rs, k)" by (cases "map_toolCalls env calls j")
  show ?case
  proof (cases "c = a")
    case True
    with toolCallback_stock_fails [OF assms(2,3), of i] cb obtain e where "r = Inl e" by auto
    then show ?thesis by (auto simp: cb m)
  next
    case False
    with Cons.prems have "c \<in> set calls" by simp
    from Cons.IH [OF this, of j] m obtain e where "Inl e \<in> set rs" by auto
    then show ?thesis by (auto simp: cb m)
  qed
qed

subsection \<open>A failed dispatch\<close>

lemma after_error_append:
  "errors_logged es = [] \<Longrightarrow> after_error (es @ LogError m e # es') = es'"
  by (induction es rule: errors_logged.induct) simp_all

lemma handleRequiresAction_failure:
  assumes "dispatch_failure env openai run runId threadId i = Some e"
  shows "errors_logged (fst (handleRequiresAction env openai run runId threadId i)) = [e] \<and>
         after_error (fst (handleRequiresAction env openai run runId threadId i)) = []"
proof (cases "required_action run")
  case None
  with assms show ?thesis
    by (simp add: dispatch_failure_def handleRequiresAction_cases)
next
  case (Some action)
  show ?thesis
  proof (cases "Promise_all (fst (map_toolCalls env (tool_calls (submit_tool_outputs action)) i))")
    case (Inl e')
    with assms Some show ?thesis
      by (simp add: dispatch_failure_def handleRequiresAction_cases)
  next
    case (Inr toolOutputs)
    with assms Some have thrown:
      "ending (runs_submitToolOutputsStream openai threadId runId toolOutputs) = Raised e"
      by (simp add: dispatch_failure_def split: completion.splits)
    let ?es = "[Log ''Handle Function Calling'', Log ''Call Tool output and stream the response'',
        Call (Runs_submitToolOutputsStream threadId runId toolOutputs)] @
      concat (map resumedChunk
        (chunks_of (runs_submitToolOutputsStream openai threadId runId toolOutputs)))"
    have es: "fst (handleRequiresAction env openai run runId threadId i) =
        ?es @ LogError ''Error submitting tool outputs:'' e # []"
      using Some Inr thrown by (simp add: handleRequiresAction_cases submitToolOutputs_effects)
    have none: "errors_logged ?es = []"
      by (simp add: errors_logged_append errors_logged_resumed_chunks)
    show ?thesis
      unfolding es using none by (simp only: after_error_append errors_logged_append) simp
  qed
qed

subsection \<open>Fragments and requests\<close>

lemma yielded_concat: "yielded (concat (map f xs)) = concat (map (\<lambda>x. yielded (f x)) xs)"
  by (induction xs) (simp_all add: yielded_append)

lemma delta_value_first_block:
  "delta_value d = (case first_block_text d of None \<Rightarrow> '''' | Some v \<Rightarrow> v)"
  by (cases "content d")
    (auto simp: delta_value_def first_block_text_def split: option.splits list.splits)

lemma assistant_requests_runChunk:
  "filter is_assistant_request (requests (fst (runChunk env openai chunk i))) = []"
  by (simp add: runChunk_def Let_def requests_handleRequiresAction is_assistant_request_def
      split: option.splits sum.splits)

lemma assistant_requests_runStream:
  "filter is_assistant_request (requests (fst (runStream env openai s i))) = []"
proof (induction s arbitrary: i)
  case End
  show ?case by simp
next
  case (Throw e)
  show ?case by simp
next
  case (Next chunk rest)
  obtain es j where c: "runChunk env openai chunk i = (es, j)" by (cases "runChunk env openai chunk i")
  obtain es' r k where r: "runStream env openai rest j = (es', r, k)"
    by (cases "runStream env openai rest j") auto
  from assistant_requests_runChunk [of env openai chunk i] c
  have "filter is_assistant_request (requests es) = []" by simp
  moreover from Next [of j] r have "filter is_assistant_request (requests es') = []" by simp
  ultimately show ?case by (simp add: c r requests_append)
qed

lemma assistant_requests_openRun:
  assumes "new_AzureOpenAI env = Inr openai"
  shows "filter is_assistant_request (requests (fst (openRun env userQuery))) =
           requests (fst (resolveAssistant env openai))"
proof -
  obtain es1 r1 where ra: "resolveAssistant env openai = (es1, r1)"
    by (cases "resolveAssistant env openai")
  have es1: "filter is_assistant_request (requests es1) = requests es1"
    using ra by (auto simp: resolveAssistant_def Let_def is_assistant_request_def
        split: option.splits if_splits)
  show ?thesis
    using es1 by (simp add: openRun_def initAzureOpenAI_def assms ra Let_def requests_append
        is_assistant_request_def split: sum.splits)
qed

lemma processQuery_effects:
  "\<exists>es. fst (processQuery env userQuery i) = fst (openRun env userQuery) @ es \<and>
        filter is_assistant_request (requests es) = []"
proof (cases "openRun env userQuery")
  case (Pair es0 r0)
  show ?thesis
  proof (cases r0)
    case (Inl e)
    with Pair show ?thesis by (simp add: processQuery_def)
  next
    case (Inr b)
    obtain openai run where b: "b = (openai, run)" by (cases b)
    obtain es r j where s: "runStream env openai run i = (es, r, j)"
      by (cases "runStream env openai run i") auto
    from assistant_requests_runStream [of env openai run i] s
    have es: "filter is_assistant_request (requests es) = []" by simp
    show ?thesis
    proof (cases r)
      case Returned
      have "fst (processQuery env userQuery i) = fst (openRun env userQuery) @ (es @ [Log ''Done!''])"
        by (simp add: processQuery_def Pair Inr b s Returned)
      moreover have "filter is_assistant_request (requests (es @ [Log ''Done!''])) = []"
        using es by (simp add: requests_append)
      ultimately show ?thesis by blast
    next
      case (Raised e)
      have "fst (processQuery env userQuery i) = fst (openRun env userQuery) @ es"
        by (simp add: processQuery_def Pair Inr b s Raised)
      with es show ?thesis by blast
    qed
  qed
qed

section \<open>The claims\<close>

subsection \<open>Text-only runs\<close>

text \<open>
  Claim C1. When \<^verbatim>\<open>processQuery\<close> has opened a run whose stream delivers only
  text-delta events, the concatenation of the fragments it yields is the concatenation of
  the text values extracted from the events, in the order of delivery, and the generator
  completes as the stream ends: it returns when the stream ends, and raises the stream's
  error when the stream throws.
\<close>

theorem processQuery_text_only:
  assumes "snd (openRun env userQuery) = Inr (openai, run)"
    and "\<forall>chunk\<in>set (chunks_of run). event chunk = ''thread.message.delta''"
  shows "concat (yielded (fst (processQuery env userQuery i))) =
           concat (map extracted_text (chunks_of run)) \<and>
         fst (snd (processQuery env userQuery i)) = ending run"
  using runStream_text_only [OF assms(2), of env openai i] processQuery_yielded [OF assms(1), of i]
  by simp

theorem processQuery_text_only_witness:
  "snd (openRun text_env ''What is AAPL trading at?'') = Inr (example_client text_run End, text_run) \<and>
   map event (chunks_of text_run) =
     [''thread.message.delta'', ''thread.message.delta'', ''thread.message.delta''] \<and>
   concat (yielded (fst (processQuery text_env ''What is AAPL trading at?'' 0))) = ''Hello'' \<and>
   fst (snd (processQuery text_env ''What is AAPL trading at?'' 0)) = Returned"
proof -
  have opened: "snd (openRun text_env ''What is AAPL trading at?'') =
      Inr (example_client text_run End, text_run)"
    by (simp add: example_defs openRun_def initAzureOpenAI_def resolveAssistant_def Let_def)
  have deltas: "\<forall>chunk\<in>set (chunks_of text_run). event chunk = ''thread.message.delta''"
    by (simp add: example_defs)
  have hello: "concat (map extracted_text (chunks_of text_run)) = ''Hello''"
    by (simp add: example_defs extracted_text_def delta_value_def)
  have ended: "ending text_run = Returned"
    by (simp add: example_defs)
  have events: "map event (chunks_of text_run) =
      [''thread.message.delta'', ''thread.message.delta'', ''thread.message.delta'']"
    by (simp add: example_defs)
  from processQuery_text_only [OF opened deltas, of 0] opened events hello ended
  show ?thesis by simp
qed

subsection \<open>Delegation is sequential\<close>

text \<open>
  Claim C2. When the run's stream delivers a requires-action event, the fragments of the
  delegated dispatch appear in the output of \<^verbatim>\<open>processQuery\<close> as one block, after
  every fragment of the events before it and before every fragment of the events after it.
\<close>

theorem delegated_fragments_contiguous:
  assumes "snd (openRun env userQuery) = Inr (openai, deliver before (Next chunk after))"
    and "event chunk = ''thread.run.requires_action''"
    and "runStream env openai (deliver before End) i = (es1, r1, j)"
    and "handleRequiresAction env openai (data chunk) (data_id (data chunk))
           (data_thread_id (data chunk)) j = (es2, k)"
    and "runStream env openai after k = (es3, r3, l)"
  shows "yielded (fst (processQuery env userQuery i)) = yielded es1 @ yielded es2 @ yielded es3"
proof -
  have "runChunk env openai chunk j = (es2, k)"
    using assms(2,4) by (simp add: runChunk_def)
  then have "runStream env openai (Next chunk after) j = (es2 @ es3, r3, l)"
    using assms(5) by simp
  then have "runStream env openai (deliver before (Next chunk after)) i = (es1 @ es2 @ es3, r3, l)"
    using assms(3) by (simp add: runStream_deliver [of env openai before "Next chunk after"])
  then show ?thesis
    using processQuery_yielded(1) [OF assms(1), of i] by (simp add: yielded_append)
qed

theorem delegated_fragments_contiguous_witness:
  "yielded (fst (processQuery tool_env ''What is AAPL trading at?'' 0)) =
     [''a''] @ [''p'', ''q''] @ [''z'']"
proof -
  let ?before = "[text_chunk ''a'']"
  let ?chunk = "action_chunk tool_calls_example"
  let ?after = "Next (text_chunk ''z'') End"
  have opened: "snd (openRun tool_env ''What is AAPL trading at?'') =
      Inr (tool_client, deliver ?before (Next ?chunk ?after))"
    by (simp add: example_defs openRun_def initAzureOpenAI_def resolveAssistant_def Let_def)
  have ev: "event ?chunk = ''thread.run.requires_action''"
    by (simp add: example_defs)
  have before: "runStream tool_env tool_client (deliver ?before End) 0 =
      ([Yield ''a'', LogValue ''Processed thread.message.delta'' ''a''], Returned, 0)"
    by (simp add: example_defs runChunk_def delta_value_def Let_def)
  have dispatch: "handleRequiresAction tool_env tool_client (data ?chunk) (data_id (data ?chunk))
      (data_thread_id (data ?chunk)) 0 =
      ([Log ''Handle Function Calling'',
        Log ''Call Tool output and stream the response'',
        Call (Runs_submitToolOutputsStream (Some ''thread_1'') (Some ''run_1'')
          [Output \<lparr>tool_call_id = ''call_1'', output_string = ''500''\<rparr>,
           Unchanged weather_call,
           Output \<lparr>tool_call_id = ''call_3'', output_string = ''250''\<rparr>]),
        Yield ''p'', LogValue ''Processed thread.message.delta (tool output)'' ''p'',
        Yield ''q'', LogValue ''Processed thread.message.delta (tool output)'' ''q'',
        LogError ''Error submitting tool outputs:'' (ServiceError ''reset'')], 2)"
    by (simp add: example_defs run_defs)
  have after: "runStream tool_env tool_client ?after 2 =
      ([Yield ''z'', LogValue ''Processed thread.message.delta'' ''z''], Returned, 2)"
    by (simp add: example_defs runChunk_def delta_value_def Let_def)
  from delegated_fragments_contiguous [OF opened ev before dispatch after]
  show ?thesis by simp
qed

subsection \<open>The submitted tool outputs\<close>

text \<open>
  Claim C3, as amended. For a payload with a required action in which the arguments of
  every \<^verbatim>\<open>getStockPrice\<close> call parse, \<^verbatim>\<open>handleRequiresAction\<close> makes exactly
  one submission, and the submitted outputs correspond one to one, in order, to the tool
  calls: to a \<^verbatim>\<open>getStockPrice\<close> call a Tool Output with the call's identifier and a
  numeric string, to any other call the call itself. In particular a payload with a single
  \<^verbatim>\<open>getStockPrice\<close> call gives a single Tool Output. When the arguments of some
  \<^verbatim>\<open>getStockPrice\<close> call do not parse, nothing is submitted.
\<close>

theorem dispatch_submits_answers:
  assumes "required_action run = Some action"
  shows "if \<forall>c\<in>set (tool_calls (submit_tool_outputs action)).
              fn_name (call_function c) = ''getStockPrice'' \<longrightarrow> arguments_parse env c
         then \<exists>outs.
                requests (fst (handleRequiresAction env openai run runId threadId i)) =
                  [Runs_submitToolOutputsStream threadId runId outs] \<and>
                list_all2 answers (tool_calls (submit_tool_outputs action)) outs
         else requests (fst (handleRequiresAction env openai run runId threadId i)) = []"
proof (cases "\<forall>c\<in>set (tool_calls (submit_tool_outputs action)).
              fn_name (call_function c) = ''getStockPrice'' \<longrightarrow> arguments_parse env c")
  case True
  from map_toolCalls_answers [OF True, of i] obtain outs where
    "Promise_all (fst (map_toolCalls env (tool_calls (submit_tool_outputs action)) i)) = Inr outs"
    "list_all2 answers (tool_calls (submit_tool_outputs action)) outs" by blast
  then have "requests (fst (handleRequiresAction env openai run runId threadId i)) =
                  [Runs_submitToolOutputsStream threadId runId outs] \<and>
                list_all2 answers (tool_calls (submit_tool_outputs action)) outs"
    by (simp add: requests_handleRequiresAction assms)
  then show ?thesis unfolding if_P [OF True] by blast
next
  case False
  then obtain c where c: "c \<in> set (tool_calls (submit_tool_outputs action))"
    "fn_name (call_function c) = ''getStockPrice''" "\<not> arguments_parse env c" by blast
  from map_toolCalls_rejected [OF c, of i] obtain e where
    "Inl e \<in> set (fst (map_toolCalls env (tool_calls (submit_tool_outputs action)) i))" by blast
  from Promise_all_rejected [OF this] obtain e' where
    "Promise_all (fst (map_toolCalls env (tool_calls (submit_tool_outputs action)) i)) = Inl e'"
    by blast
  then have "requests (fst (handleRequiresAction env openai run runId threadId i)) = []"
    by (simp add: requests_handleRequiresAction assms)
  then show ?thesis unfolding if_not_P [OF False] .
qed

theorem dispatch_submits_answers_witness:
  \<open>required_action (data (action_chunk [stock_call ''call_1'' ''{"symbol":"AAPL"}''])) =
     Some \<lparr>submit_tool_outputs = \<lparr>tool_calls = [stock_call ''call_1'' ''{"symbol":"AAPL"}'']\<rparr>\<rparr> \<and>
   arguments_parse tool_env (stock_call ''call_1'' ''{"symbol":"AAPL"}'') \<and>
   (\<exists>outs.
      requests (fst (handleRequiresAction tool_env tool_client
        (data (action_chunk [stock_call ''call_1'' ''{"symbol":"AAPL"}'']))
        (Some ''run_1'') (Some ''thread_1'') 0)) =
        [Runs_submitToolOutputsStream (Some ''thread_1'') (Some ''run_1'') outs] \<and>
      list_all2 answers [stock_call ''call_1'' ''{"symbol":"AAPL"}''] outs) \<and>
   requests (fst (handleRequiresAction tool_env tool_client
        (data (action_chunk [stock_call ''call_1'' ''{"symbol":"AAPL"}'']))
        (Some ''run_1'') (Some ''thread_1'') 0)) =
     [Runs_submitToolOutputsStream (Some ''thread_1'') (Some ''run_1'')
        [Output \<lparr>tool_call_id = ''call_1'', output_string = ''500''\<rparr>]]\<close>
proof -
  let ?call = \<open>stock_call ''call_1'' ''{"symbol":"AAPL"}''\<close>
  have action: "required_action (data (action_chunk [?call])) =
     Some \<lparr>submit_tool_outputs = \<lparr>tool_calls = [?call]\<rparr>\<rparr>"
    by (simp add: example_defs)
  have parse: "arguments_parse tool_env ?call"
    by (simp add: example_defs arguments_parse_def)
  have submitted: "requests (fst (handleRequiresAction tool_env tool_client
        (data (action_chunk [?call])) (Some ''run_1'') (Some ''thread_1'') 0)) =
     [Runs_submitToolOutputsStream (Some ''thread_1'') (Some ''run_1'')
        [Output \<lparr>tool_call_id = ''call_1'', output_string = ''500''\<rparr>]]"
    by (simp add: example_defs run_defs)
  from dispatch_submits_answers [OF action, of tool_env tool_client "Some ''run_1''" "Some ''thread_1''" 0]
    parse action submitted
  show ?thesis by simp
qed

text \<open>
  The claim as stated fails: a single \<^verbatim>\<open>getStockPrice\<close> call whose arguments are
  malformed, or are the text \<^verbatim>\<open>null\<close>, is logged as an error, and nothing is
  submitted.
\<close>

theorem dispatch_malformed_arguments_counterexample:
  "tool_calls (submit_tool_outputs (the (required_action (data (action_chunk [stock_call ''call_1'' ''{'']))))) =
     [stock_call ''call_1'' ''{''] \<and>
   fn_name (call_function (stock_call ''call_1'' ''{'')) = ''getStockPrice'' \<and>
   fst (handleRequiresAction malformed_env malformed_client
         (data (action_chunk [stock_call ''call_1'' ''{'']))
         (Some ''run_1'') (Some ''thread_1'') 0) =
     [Log ''Handle Function Calling'',
      LogError ''Error processing required action:'' SyntaxError] \<and>
   requests (fst (handleRequiresAction malformed_env malformed_client
         (data (action_chunk [stock_call ''call_1'' ''{'']))
         (Some ''run_1'') (Some ''thread_1'') 0)) = [] \<and>
   fst (handleRequiresAction malformed_env malformed_client
         (data (action_chunk [stock_call ''call_1'' ''null'']))
         (Some ''run_1'') (Some ''thread_1'') 0) =
     [Log ''Handle Function Calling'',
      LogError ''Error processing required action:'' TypeError]"
  by (simp add: example_defs run_defs)

subsection \<open>A failed dispatch\<close>

text \<open>
  Claim C4, as amended. When the tool dispatch or the submission of the tool outputs
  fails (malformed arguments included), the error is logged once and nothing follows the
  log entry in the delegated dispatch, so the dispatch yields no further fragment; no
  error is raised to the consumer; and the loop of \<^verbatim>\<open>processQuery\<close> goes on with the
  rest of the run's stream: the fragments of \<^verbatim>\<open>processQuery\<close> are those of the
  events before, those the dispatch yielded before it failed, and those of the events
  after, and the generator completes as the rest of the stream does.
\<close>

theorem dispatch_failure_logged_run_continues:
  assumes "snd (openRun env userQuery) = Inr (openai, deliver before (Next chunk rest))"
    and "event chunk = ''thread.run.requires_action''"
    and "runStream env openai (deliver before End) i = (es0, r0, j)"
    and "dispatch_failure env openai (data chunk) (data_id (data chunk))
           (data_thread_id (data chunk)) j = Some e"
    and "handleRequiresAction env openai (data chunk) (data_id (data chunk))
           (data_thread_id (data chunk)) j = (es, k)"
    and "runStream env openai rest k = (es', r, l)"
  shows "errors_logged es = [e] \<and> after_error es = [] \<and>
         runStream env openai (Next chunk rest) j = (es @ es', r, l) \<and>
         yielded (fst (processQuery env userQuery i)) = yielded es0 @ yielded es @ yielded es' \<and>
         fst (snd (processQuery env userQuery i)) = r"
proof -
  from handleRequiresAction_failure [OF assms(4)] assms(5)
  have logged: "errors_logged es = [e] \<and> after_error es = []" by simp
  have "runChunk env openai chunk j = (es, k)"
    using assms(2,5) by (simp add: runChunk_def)
  then have step: "runStream env openai (Next chunk rest) j = (es @ es', r, l)"
    using assms(6) by simp
  then have "runStream env openai (deliver before (Next chunk rest)) i = (es0 @ es @ es', r, l)"
    using assms(3) by (simp add: runStream_deliver [of env openai before "Next chunk rest"])
  then have "yielded (fst (processQuery env userQuery i)) = yielded es0 @ yielded es @ yielded es' \<and>
      fst (snd (processQuery env userQuery i)) = r"
    using processQuery_yielded [OF assms(1), of i] by (simp add: yielded_append)
  with logged step show ?thesis by simp
qed

theorem dispatch_failure_logged_run_continues_witness:
  "dispatch_failure malformed_env malformed_client
     (data (action_chunk [stock_call ''call_1'' ''{'']))
     (Some ''run_1'') (Some ''thread_1'') 0 = Some SyntaxError \<and>
   runStream malformed_env malformed_client malformed_run 0 =
     ([Log ''Handle Function Calling'',
       LogError ''Error processing required action:'' SyntaxError,
       Yield ''x'', LogValue ''Processed thread.message.delta'' ''x''], Returned, 0) \<and>
   yielded (fst (processQuery malformed_env ''What is AAPL trading at?'' 0)) = [''x''] \<and>
   fst (snd (processQuery malformed_env ''What is AAPL trading at?'' 0)) = Returned"
proof -
  let ?chunk = "action_chunk [stock_call ''call_1'' ''{'']"
  let ?rest = "Next (text_chunk ''x'') End"
  have opened: "snd (openRun malformed_env ''What is AAPL trading at?'') =
      Inr (malformed_client, deliver [] (Next ?chunk ?rest))"
    by (simp add: example_defs openRun_def initAzureOpenAI_def resolveAssistant_def Let_def)
  have ev: "event ?chunk = ''thread.run.requires_action''"
    by (simp add: example_defs)
  have before: "runStream malformed_env malformed_client (deliver [] End) 0 = ([], Returned, 0)"
    by simp
  have ids: "data_id (data ?chunk) = Some ''run_1''" "data_thread_id (data ?chunk) = Some ''thread_1''"
    by (simp_all add: example_defs)
  have failure: "dispatch_failure malformed_env malformed_client (data ?chunk)
      (data_id (data ?chunk)) (data_thread_id (data ?chunk)) 0 = Some SyntaxError"
    by (simp add: example_defs dispatch_failure_def toolCallback_def)
  have dispatch: "handleRequiresAction malformed_env malformed_client (data ?chunk)
      (data_id (data ?chunk)) (data_thread_id (data ?chunk)) 0 =
      ([Log ''Handle Function Calling'',
        LogError ''Error processing required action:'' SyntaxError], 0)"
    by (simp add: example_defs run_defs)
  have rest: "runStream malformed_env malformed_client ?rest 0 =
      ([Yield ''x'', LogValue ''Processed thread.message.delta'' ''x''], Returned, 0)"
    by (simp add: example_defs runChunk_def delta_value_def Let_def)
  have run: "malformed_run = Next ?chunk ?rest"
    by (simp add: malformed_run_def)
  from dispatch_failure_logged_run_continues [OF opened ev before failure dispatch rest]
    failure ids run
  show ?thesis by simp
qed

text \<open>
  The claim as stated fails: after the error of a failed dispatch is logged, the fragment
  of a later event of the run's stream is yielded.
\<close>

theorem dispatch_failure_ends_sequence_counterexample:
  "errors_logged (fst (processQuery malformed_env ''What is AAPL trading at?'' 0)) = [SyntaxError] \<and>
   yielded (after_error (fst (processQuery malformed_env ''What is AAPL trading at?'' 0))) = [''x''] \<and>
   fst (snd (processQuery malformed_env ''What is AAPL trading at?'' 0)) = Returned"
  by (simp add: example_defs run_defs)

subsection \<open>Tool calls of another name\<close>

text \<open>
  Claim C5. For a tool call whose name is not \<^verbatim>\<open>getStockPrice\<close>, the callback's
  promise is fulfilled (it is no error) with the tool call itself, unchanged, and that is
  the element of the tool outputs at the call's position.
\<close>

theorem other_tool_call_passed_through:
  assumes "j < length calls"
    and "fn_name (call_function (calls ! j)) \<noteq> ''getStockPrice''"
  shows "toolCallback env (calls ! j) i = (Inr (Unchanged (calls ! j)), i) \<and>
         fst (map_toolCalls env calls i) ! j = Inr (Unchanged (calls ! j)) \<and>
         (\<forall>toolOutputs. Promise_all (fst (map_toolCalls env calls i)) = Inr toolOutputs \<longrightarrow>
            toolOutputs ! j = Unchanged (calls ! j))"
proof -
  have nth: "fst (map_toolCalls env calls i) ! j = Inr (Unchanged (calls ! j))"
    using assms by (rule map_toolCalls_nth_other)
  have "toolOutputs ! j = Unchanged (calls ! j)"
    if "Promise_all (fst (map_toolCalls env calls i)) = Inr toolOutputs" for toolOutputs
    using Promise_all_nth [OF that, of j] assms(1) nth by (simp add: map_toolCalls_length)
  then show ?thesis
    using nth toolCallback_other [OF assms(2), of env i] by blast
qed

theorem other_tool_call_passed_through_witness:
  "fn_name (call_function (tool_calls_example ! 1)) = ''getWeather'' \<and>
   toolCallback tool_env (tool_calls_example ! 1) 0 = (Inr (Unchanged weather_call), 0) \<and>
   fst (map_toolCalls tool_env tool_calls_example 0) ! 1 = Inr (Unchanged weather_call) \<and>
   Promise_all (fst (map_toolCalls tool_env tool_calls_example 0)) =
     Inr [Output \<lparr>tool_call_id = ''call_1'', output_string = ''500''\<rparr>,
          Unchanged weather_call,
          Output \<lparr>tool_call_id = ''call_3'', output_string = ''250''\<rparr>]"
proof -
  have len: "1 < length tool_calls_example"
    by (simp add: tool_calls_example_def)
  have nth: "tool_calls_example ! 1 = weather_call"
    by (simp add: tool_calls_example_def)
  have other: "fn_name (call_function (tool_calls_example ! 1)) \<noteq> ''getStockPrice''"
    unfolding nth by (simp add: weather_call_def)
  have name: "fn_name (call_function (tool_calls_example ! 1)) = ''getWeather''"
    unfolding nth by (simp add: weather_call_def)
  have outs: "Promise_all (fst (map_toolCalls tool_env tool_calls_example 0)) =
     Inr [Output \<lparr>tool_call_id = ''call_1'', output_string = ''500''\<rparr>,
          Unchanged weather_call,
          Output \<lparr>tool_call_id = ''call_3'', output_string = ''250''\<rparr>]"
    by (simp add: example_defs run_defs)
  have passed: "toolCallback tool_env weather_call 0 = (Inr (Unchanged weather_call), 0) \<and>
      fst (map_toolCalls tool_env tool_calls_example 0) ! 1 = Inr (Unchanged weather_call)"
    using other_tool_call_passed_through [OF len other, of tool_env 0] unfolding nth by blast
  show ?thesis
    unfolding nth using passed name [unfolded nth] outs by blast
qed

subsection \<open>The resumed stream is read for text only\<close>

text \<open>
  Claim C6. On the resumed stream \<^verbatim>\<open>submitToolOutputs\<close> does nothing for an event
  that is not a text delta; the fragments it yields are those of the events of the
  resumed stream, one event after the other; the only request it makes is the submission
  itself, so that a requires-action event on the resumed stream starts no second
  dispatch: one call of \<^verbatim>\<open>handleRequiresAction\<close> makes at most one request.
\<close>

theorem resumed_stream_text_only:
  "(event chunk \<noteq> ''thread.message.delta'' \<longrightarrow> resumedChunk chunk = []) \<and>
   yielded (submitToolOutputs openai toolOutputs runId threadId) =
     concat (map (\<lambda>chunk. yielded (resumedChunk chunk))
       (chunks_of (runs_submitToolOutputsStream openai threadId runId toolOutputs))) \<and>
   requests (submitToolOutputs openai toolOutputs runId threadId) =
     [Runs_submitToolOutputsStream threadId runId toolOutputs] \<and>
   length (requests (fst (handleRequiresAction env openai run runId threadId i))) \<le> 1"
proof -
  have "event chunk \<noteq> ''thread.message.delta'' \<longrightarrow> resumedChunk chunk = []"
    by (simp add: resumedChunk_def)
  moreover have "yielded (submitToolOutputs openai toolOutputs runId threadId) =
     concat (map (\<lambda>chunk. yielded (resumedChunk chunk))
       (chunks_of (runs_submitToolOutputsStream openai threadId runId toolOutputs)))"
    by (simp add: submitToolOutputs_effects yielded_append yielded_concat split: completion.splits)
  moreover have "length (requests (fst (handleRequiresAction env openai run runId threadId i))) \<le> 1"
    by (simp add: requests_handleRequiresAction split: option.splits sum.splits)
  ultimately show ?thesis
    by (simp add: requests_submitToolOutputs)
qed

theorem resumed_stream_text_only_witness:
  "event (action_chunk [weather_call]) = ''thread.run.requires_action'' \<and>
   resumedChunk (action_chunk [weather_call]) = [] \<and>
   map event (chunks_of resumed_run) =
     [''thread.message.delta'', ''thread.run.requires_action'', ''thread.message.delta''] \<and>
   yielded (submitToolOutputs tool_client [Unchanged weather_call] (Some ''run_1'') (Some ''thread_1'')) =
     [''p'', ''q''] \<and>
   requests (submitToolOutputs tool_client [Unchanged weather_call] (Some ''run_1'') (Some ''thread_1'')) =
     [Runs_submitToolOutputsStream (Some ''thread_1'') (Some ''run_1'') [Unchanged weather_call]]"
proof -
  have ev: "event (action_chunk [weather_call]) = ''thread.run.requires_action''"
    by (simp add: example_defs)
  then have other: "event (action_chunk [weather_call]) \<noteq> ''thread.message.delta''"
    by simp
  have events: "map event (chunks_of resumed_run) =
     [''thread.message.delta'', ''thread.run.requires_action'', ''thread.message.delta'']"
    by (simp add: example_defs)
  have resumed: "runs_submitToolOutputsStream tool_client (Some ''thread_1'') (Some ''run_1'')
      [Unchanged weather_call] = resumed_run"
    by (simp add: tool_client_def example_client_def)
  have fragments: "concat (map (\<lambda>chunk. yielded (resumedChunk chunk)) (chunks_of resumed_run)) =
      [''p'', ''q'']"
    by (simp add: example_defs resumedChunk_def delta_value_def Let_def)
  from resumed_stream_text_only [of "action_chunk [weather_call]" tool_client
      "[Unchanged weather_call]" "Some ''run_1''" "Some ''thread_1''" tool_env
      "data (action_chunk [weather_call])" 0]
    ev other events resumed fragments
  show ?thesis by simp
qed

subsection \<open>The fragment of a text delta\<close>

text \<open>
  Claim C7. For a text-delta event with a delta, in the run's stream as in the resumed
  stream, exactly one fragment is yielded: the text value of the first content block of the
  delta, and the empty string when that value is absent.
\<close>

theorem delta_fragment_is_first_text:
  assumes "event chunk = ''thread.message.delta''"
    and "delta (data chunk) = Some d"
  shows "yielded (fst (runChunk env openai chunk i)) =
           [case first_block_text d of None \<Rightarrow> '''' | Some v \<Rightarrow> v] \<and>
         yielded (resumedChunk chunk) =
           [case first_block_text d of None \<Rightarrow> '''' | Some v \<Rightarrow> v]"
  using assms by (simp add: runChunk_def resumedChunk_def Let_def delta_value_first_block)

theorem delta_fragment_is_first_text_witness:
  "first_block_text \<lparr>content = [\<lparr>block_text = Some \<lparr>text_value = Some ''Hel''\<rparr>\<rparr>]\<rparr> = Some ''Hel'' \<and>
   yielded (fst (runChunk tool_env tool_client (text_chunk ''Hel'') 0)) = [''Hel''] \<and>
   yielded (resumedChunk (text_chunk ''Hel'')) = [''Hel''] \<and>
   first_block_text \<lparr>content = [\<lparr>block_text = None\<rparr>]\<rparr> = None \<and>
   yielded (fst (runChunk tool_env tool_client blank_chunk 0)) = [''''] \<and>
   yielded (resumedChunk blank_chunk) = ['''']"
proof -
  let ?d = "\<lparr>content = [\<lparr>block_text = Some \<lparr>text_value = Some ''Hel''\<rparr>\<rparr>]\<rparr>"
  let ?b = "\<lparr>content = [\<lparr>block_text = None\<rparr>]\<rparr>"
  have ev: "event (text_chunk ''Hel'') = ''thread.message.delta''"
    and d: "delta (data (text_chunk ''Hel'')) = Some ?d"
    by (simp_all add: text_chunk_def)
  have ev': "event blank_chunk = ''thread.message.delta''"
    and b: "delta (data blank_chunk) = Some ?b"
    by (simp_all add: blank_chunk_def)
  have first: "first_block_text ?d = Some ''Hel''" "first_block_text ?b = None"
    by (simp_all add: first_block_text_def)
  from delta_fragment_is_first_text [OF ev d, of tool_env tool_client 0]
    delta_fragment_is_first_text [OF ev' b, of tool_env tool_client 0] first
  show ?thesis by simp
qed

subsection \<open>The assistant is retrieved or created\<close>

text \<open>
  Claim C8. Once the client is there, a run of \<^verbatim>\<open>processQuery\<close> makes exactly one
  request about the assistant: when \<^verbatim>\<open>ASSISTANT_ID\<close> is set and not empty, it
  retrieves the assistant of that identifier and creates none; otherwise it creates one
  from \<^verbatim>\<open>assistantDefinition\<close>.
\<close>

theorem assistant_retrieved_or_created:
  assumes "new_AzureOpenAI env = Inr openai"
  shows "(\<forall>a. ASSISTANT_ID env = Some a \<and> a \<noteq> '''' \<longrightarrow>
            filter is_assistant_request (requests (fst (processQuery env userQuery i))) =
              [Assistants_retrieve a]) \<and>
         (ASSISTANT_ID env = None \<or> ASSISTANT_ID env = Some '''' \<longrightarrow>
            filter is_assistant_request (requests (fst (processQuery env userQuery i))) =
              [Assistants_create (assistantDefinition env)])"
proof -
  from processQuery_effects [of env userQuery i] obtain es where
    es: "fst (processQuery env userQuery i) = fst (openRun env userQuery) @ es"
      "filter is_assistant_request (requests es) = []" by blast
  have "filter is_assistant_request (requests (fst (processQuery env userQuery i))) =
      requests (fst (resolveAssistant env openai))"
    by (simp add: es requests_append assistant_requests_openRun [OF assms])
  then show ?thesis
    by (auto simp: resolveAssistant_def Let_def)
qed

theorem assistant_retrieved_or_created_witness:
  "ASSISTANT_ID tool_env = Some ''asst_7'' \<and>
   filter is_assistant_request (requests (fst (processQuery tool_env ''What is AAPL trading at?'' 0))) =
     [Assistants_retrieve ''asst_7''] \<and>
   ASSISTANT_ID text_env = None \<and>
   filter is_assistant_request (requests (fst (processQuery text_env ''What is AAPL trading at?'' 0))) =
     [Assistants_create (assistantDefinition text_env)] \<and>
   ASSISTANT_ID malformed_env = Some '''' \<and>
   filter is_assistant_request (requests (fst (processQuery malformed_env ''What is AAPL trading at?'' 0))) =
     [Assistants_create (assistantDefinition malformed_env)]"
proof -
  have client: "new_AzureOpenAI tool_env = Inr tool_client"
    "new_AzureOpenAI text_env = Inr (example_client text_run End)"
    "new_AzureOpenAI malformed_env = Inr malformed_client"
    by (simp_all add: tool_env_def text_env_def malformed_env_def example_env_def)
  have ids: "ASSISTANT_ID tool_env = Some ''asst_7''" "ASSISTANT_ID text_env = None"
    "ASSISTANT_ID malformed_env = Some ''''"
    by (simp_all add: tool_env_def text_env_def malformed_env_def example_env_def)
  from assistant_retrieved_or_created [OF client(1), of "''What is AAPL trading at?''" 0]
    assistant_retrieved_or_created [OF client(2), of "''What is AAPL trading at?''" 0]
    assistant_retrieved_or_created [OF client(3), of "''What is AAPL trading at?''" 0]
    ids
  show ?thesis by simp
qed

subsection \<open>A text-delta event without a delta\<close>

text \<open>
  Claim C9. For a text-delta event whose payload has no delta, the loop of
  \<^verbatim>\<open>processQuery\<close> and the loop of \<^verbatim>\<open>submitToolOutputs\<close> do nothing: no
  fragment is yielded, not even an empty one.
\<close>

theorem no_delta_no_fragment:
  assumes "event chunk = ''thread.message.delta''"
    and "delta (data chunk) = None"
  shows "runChunk env openai chunk i = ([], i) \<and> resumedChunk chunk = []"
  using assms by (simp add: runChunk_def resumedChunk_def)

theorem no_delta_no_fragment_witness:
  "delta (data (empty_chunk ''thread.message.delta'')) = None \<and>
   runChunk tool_env tool_client (empty_chunk ''thread.message.delta'') 0 = ([], 0) \<and>
   resumedChunk (empty_chunk ''thread.message.delta'') = [] \<and>
   yielded (fst (processQuery text_env ''What is AAPL trading at?'' 0)) = [''Hel'', ''lo'']"
proof -
  have ev: "event (empty_chunk ''thread.message.delta'') = ''thread.message.delta''"
    and none: "delta (data (empty_chunk ''thread.message.delta'')) = None"
    by (simp_all add: empty_chunk_def)
  have run: "yielded (fst (processQuery text_env ''What is AAPL trading at?'' 0)) = [''Hel'', ''lo'']"
    by (simp add: example_defs run_defs)
  from no_delta_no_fragment [OF ev none, of tool_env tool_client 0] none run
  show ?thesis by simp
qed

subsection \<open>The stock price lookup\<close>

text \<open>
  Claim C10. The result of \<^verbatim>\<open>getStockPrice\<close> does not depend on its symbol
  argument: with the same random draw, two calls with any two symbols (strings or any other
  value, or \<^verbatim>\<open>undefined\<close>) return the same string.
\<close>

theorem getStockPrice_ignores_symbol:
  "getStockPrice env symbol1 i = getStockPrice env symbol2 i"
  by (simp add: getStockPrice_def)

end
